theory Spec2Isabelle
  imports Main "HOL-Library.Word"
begin

unbundle bit_operations_syntax

section \<open>The button component of VirtualOS (Utilities/button/button.c)\<close>

text \<open>
  A shallow embedding of \<^verbatim>\<open>button.c\<close>: the two-sample debounce filter
  (\<^verbatim>\<open>button_debounce\<close>), the six state handlers of the click-classification machine,
  the scan entry point (\<^verbatim>\<open>button_scan\<close>) and the constructor (\<^verbatim>\<open>button_ctor\<close>).

  The C code mutates the instance behind \<^verbatim>\<open>p_btn\<close>; here every function takes the
  instance and returns the updated one. A function pointer is an optional code address
  (\<open>None\<close> is \<^verbatim>\<open>NULL\<close>). The value that \<^verbatim>\<open>cfg.f_io_read()\<close> returns at a call is an
  argument of the model, and the calls of the event callback are returned as the list of
  the events handed to it.
\<close>

subsection \<open>Types\<close>

type_synonym u8 = "8 word"
type_synonym u32 = "32 word"
type_synonym fn_ptr = nat

text \<open>\<^verbatim>\<open>BTN_IO_EVENT_E\<close>, lines 34-37 of button.c.\<close>

datatype BTN_IO_EVENT_E = BTN_IO_EVENT_UP | BTN_IO_EVENT_DOWN

text \<open>
  Modelled from the spec: \<^verbatim>\<open>button.h\<close> is not part of the sources at hand, so the event
  kinds are the six the spec lists (None, Popup, SingleClick, DoubleClick, MoreClick,
  LongClick) under the names button.c uses for them.
\<close>

datatype button_event_e =
    BTN_EVENT_NONE
  | BTN_EVENT_POPUP
  | BTN_EVENT_SINGLE_CLICK
  | BTN_EVENT_DOUBLE_CLICK
  | BTN_EVENT_MORE_CLICK
  | BTN_EVENT_LONG_CLICK

text \<open>
  The field \<^verbatim>\<open>state.state\<close> holds the address of one of the six static handlers of
  button.c (or \<^verbatim>\<open>NULL\<close>); the tag names the handler it points to.
\<close>

datatype on_state_handler =
    ON_IDLE
  | ON_UP
  | ON_UP_SUSPENSE
  | ON_DOWN
  | ON_DOWN_SHORT
  | ON_DOWN_LONG

text \<open>
  Modelled from the spec: the structures \<^verbatim>\<open>button_cfg_t\<close>, \<^verbatim>\<open>button_ev_t\<close> and
  \<^verbatim>\<open>button_t\<close> are declared in \<^verbatim>\<open>button.h\<close>, which is not part of the sources at
  hand. The fields are the ones button.c reads and writes. Their widths are not given by
  the source, so they are type parameters: \<open>'c\<close> is the width of the tick counter, of the
  click count and of the two thresholds, \<open>'w\<close> the width of the two debounce fields
  (\<open>1\<close> for the single-bit fields the spec describes, \<open>8\<close> for plain bytes). The raw
  sample, the debounced level and the active level are bytes, as \<^verbatim>\<open>uint8_t cur_lv\<close> and
  \<^verbatim>\<open>uint8_t cur_level\<close> are in button.c. The nested structure \<^verbatim>\<open>state\<close> (with its
  \<^verbatim>\<open>jit\<close>) is flattened: \<^verbatim>\<open>p_btn->state.jit.asserted\<close> is \<open>state_jit_asserted p_btn\<close>.
\<close>

record (overloaded) 'c button_cfg_t =
  f_io_read :: "fn_ptr option"
  active_lv :: u8
  up_max_cnt :: "'c word"
  long_min_cnt :: "'c word"

record (overloaded) 'c button_ev_t =
  ev_type :: button_event_e
  clicks :: "'c word"

record (overloaded) ('w, 'c) button_t =
  cfg :: "'c button_cfg_t"
  f_ev_cb :: "fn_ptr option"
  state_state :: "on_state_handler option"
  state_counter :: "'c word"
  state_click_cnt :: "'c word"
  state_jit_previous :: "'w word"
  state_jit_asserted :: "'w word"

text \<open>
  Modelled from the spec: the macro \<^verbatim>\<open>BUTTON_LEVEL_HIGH\<close> comes from \<^verbatim>\<open>button.h\<close>; it is
  the binary level 1.
\<close>

definition BUTTON_LEVEL_HIGH :: u8 where
  "BUTTON_LEVEL_HIGH = 1"

subsection \<open>Click classification\<close>

text \<open>\<^verbatim>\<open>dispatch_click_type\<close>, lines 56-65: a three-entry table, \<^verbatim>\<open>MORE_CLICK\<close> beyond it.\<close>

definition click_type :: "button_event_e list" where
  "click_type = [BTN_EVENT_NONE, BTN_EVENT_SINGLE_CLICK, BTN_EVENT_DOUBLE_CLICK]"

definition dispatch_click_type :: "u32 \<Rightarrow> button_event_e" where
  "dispatch_click_type click_cnt =
     (if click_cnt < 3 then click_type ! unat click_cnt else BTN_EVENT_MORE_CLICK)"

subsection \<open>The state handlers\<close>

text \<open>
  Each handler returns the updated instance and the event. \<^verbatim>\<open>++p_btn->state.counter\<close>
  stores the incremented (wrapped) counter and yields the stored value, which is then
  compared with the threshold.
\<close>

definition on_idle_handler ::
  "('w::len, 'c::len) button_t \<Rightarrow> BTN_IO_EVENT_E \<Rightarrow> ('w, 'c) button_t \<times> button_event_e" where
  "on_idle_handler p_btn io_ev =
     (if io_ev = BTN_IO_EVENT_UP then
        (p_btn\<lparr>state_state := Some ON_UP\<rparr>, BTN_EVENT_NONE)
      else
        (p_btn\<lparr>state_counter := 0, state_click_cnt := 1, state_state := Some ON_DOWN\<rparr>,
         BTN_EVENT_NONE))"

definition on_up_handler ::
  "('w::len, 'c::len) button_t \<Rightarrow> BTN_IO_EVENT_E \<Rightarrow> ('w, 'c) button_t \<times> button_event_e" where
  "on_up_handler p_btn io_ev =
     (if io_ev = BTN_IO_EVENT_DOWN then
        (p_btn\<lparr>state_counter := 0, state_click_cnt := 1, state_state := Some ON_DOWN\<rparr>,
         BTN_EVENT_NONE)
      else (p_btn, BTN_EVENT_NONE))"

definition on_up_suspense_handler ::
  "('w::len, 'c::len) button_t \<Rightarrow> BTN_IO_EVENT_E \<Rightarrow> ('w, 'c) button_t \<times> button_event_e" where
  "on_up_suspense_handler p_btn io_ev =
     (if io_ev = BTN_IO_EVENT_UP then
        (let b1 = p_btn\<lparr>state_counter := state_counter p_btn + 1\<rparr> in
         if state_counter b1 \<ge> up_max_cnt (cfg b1) then
           (b1\<lparr>state_counter := 0, state_state := Some ON_UP\<rparr>,
            dispatch_click_type (ucast (state_click_cnt b1)))
         else (b1, BTN_EVENT_NONE))
      else
        (p_btn\<lparr>state_counter := 0,
               state_click_cnt := state_click_cnt p_btn + 1,
               state_state := Some ON_DOWN_SHORT\<rparr>,
         BTN_EVENT_NONE))"

definition on_down_handler ::
  "('w::len, 'c::len) button_t \<Rightarrow> BTN_IO_EVENT_E \<Rightarrow> ('w, 'c) button_t \<times> button_event_e" where
  "on_down_handler p_btn io_ev =
     (if io_ev = BTN_IO_EVENT_UP then
        (p_btn\<lparr>state_counter := 0, state_state := Some ON_UP_SUSPENSE\<rparr>, BTN_EVENT_POPUP)
      else
        (let b1 = p_btn\<lparr>state_counter := state_counter p_btn + 1\<rparr> in
         if state_counter b1 \<ge> long_min_cnt (cfg b1) then
           (b1\<lparr>state_counter := 0, state_state := Some ON_DOWN_LONG\<rparr>, BTN_EVENT_LONG_CLICK)
         else (b1, BTN_EVENT_NONE)))"

definition on_down_short_handler ::
  "('w::len, 'c::len) button_t \<Rightarrow> BTN_IO_EVENT_E \<Rightarrow> ('w, 'c) button_t \<times> button_event_e" where
  "on_down_short_handler p_btn io_ev =
     (if io_ev = BTN_IO_EVENT_UP then
        (p_btn\<lparr>state_counter := 0, state_state := Some ON_UP_SUSPENSE\<rparr>, BTN_EVENT_POPUP)
      else
        (let b1 = p_btn\<lparr>state_counter := state_counter p_btn + 1\<rparr> in
         if state_counter b1 \<ge> up_max_cnt (cfg b1) then
           (b1\<lparr>state_counter := 0, state_state := Some ON_DOWN_LONG\<rparr>,
            dispatch_click_type (ucast (state_click_cnt b1)))
         else (b1, BTN_EVENT_NONE)))"

definition on_down_long_handler ::
  "('w::len, 'c::len) button_t \<Rightarrow> BTN_IO_EVENT_E \<Rightarrow> ('w, 'c) button_t \<times> button_event_e" where
  "on_down_long_handler p_btn io_ev =
     (if io_ev = BTN_IO_EVENT_UP then
        (p_btn\<lparr>state_state := Some ON_UP\<rparr>, BTN_EVENT_POPUP)
      else (p_btn, BTN_EVENT_NONE))"

text \<open>
  The indirect call \<^verbatim>\<open>((on_state_handler)p_btn->state.state)(p_btn, io_ev)\<close> of lines
  195 and 197.
\<close>

definition call_state ::
  "on_state_handler \<Rightarrow> ('w::len, 'c::len) button_t \<Rightarrow> BTN_IO_EVENT_E
     \<Rightarrow> ('w, 'c) button_t \<times> button_event_e" where
  "call_state h p_btn io_ev =
     (case h of
        ON_IDLE \<Rightarrow> on_idle_handler p_btn io_ev
      | ON_UP \<Rightarrow> on_up_handler p_btn io_ev
      | ON_UP_SUSPENSE \<Rightarrow> on_up_suspense_handler p_btn io_ev
      | ON_DOWN \<Rightarrow> on_down_handler p_btn io_ev
      | ON_DOWN_SHORT \<Rightarrow> on_down_short_handler p_btn io_ev
      | ON_DOWN_LONG \<Rightarrow> on_down_long_handler p_btn io_ev)"

subsection \<open>The debounce filter\<close>

text \<open>
  \<^verbatim>\<open>button_debounce\<close>, lines 167-181. \<open>cur_lv\<close> is the byte \<^verbatim>\<open>f_io_read()\<close> returned.
  The two compound assignments and the store to \<^verbatim>\<open>previous\<close> convert their right-hand
  side to the width of the field (\<open>ucast\<close>; the identity when the field is a byte), and the
  returned \<^verbatim>\<open>uint8_t\<close> is the stored \<^verbatim>\<open>asserted\<close>.
\<close>

definition button_debounce ::
  "('w::len, 'c::len) button_t \<Rightarrow> u8 \<Rightarrow> ('w, 'c) button_t \<times> u8" where
  "button_debounce p_btn cur_lv =
     (let b1 = p_btn\<lparr>state_jit_asserted :=
                       state_jit_asserted p_btn OR (state_jit_previous p_btn AND ucast cur_lv)\<rparr>;
          b2 = b1\<lparr>state_jit_asserted :=
                    state_jit_asserted b1 AND (state_jit_previous b1 OR ucast cur_lv)\<rparr>;
          b3 = b2\<lparr>state_jit_previous := ucast cur_lv\<rparr>
      in (b3, ucast (state_jit_asserted b3)))"

subsection \<open>Scan and construction\<close>

text \<open>
  \<^verbatim>\<open>button_scan\<close>, lines 184-205. The result is the instance after the call, the returned
  event and the events handed to the callback during the call (none or one). The guard
  of line 189 reads \<^verbatim>\<open>state.state\<close>, which the debounce filter does not write, so the
  handler called at lines 195/197 is the one the guard saw.
\<close>

definition button_scan ::
  "('w::len, 'c::len) button_t option \<Rightarrow> u8
     \<Rightarrow> ('w, 'c) button_t option \<times> button_event_e \<times> 'c button_ev_t list" where
  "button_scan p_btn io_lv =
     (case p_btn of
        None \<Rightarrow> (None, BTN_EVENT_NONE, [])
      | Some btn \<Rightarrow>
          (if f_io_read (cfg btn) = None then (Some btn, BTN_EVENT_NONE, [])
           else
             (case state_state btn of
                None \<Rightarrow> (Some btn, BTN_EVENT_NONE, [])
              | Some h \<Rightarrow>
                  (let (b1, cur_level) = button_debounce btn io_lv;
                       (b2, ev) =
                         (if cur_level = active_lv (cfg b1)
                          then call_state h b1 BTN_IO_EVENT_DOWN
                          else call_state h b1 BTN_IO_EVENT_UP)
                   in if ev \<noteq> BTN_EVENT_NONE \<and> f_ev_cb b2 \<noteq> None
                      then (Some b2, ev, [\<lparr>ev_type = ev, clicks = state_click_cnt b2\<rparr>])
                      else (Some b2, ev, [])))))"

text \<open>
  \<^verbatim>\<open>button_ctor\<close>, lines 207-223. The local \<^verbatim>\<open>button_t btn\<close> starts uninitialised: its
  content is the argument \<open>btn\<close>, and the fields the constructor does not assign keep it.
\<close>

definition button_ctor ::
  "('w::len, 'c::len) button_t \<Rightarrow> 'c button_cfg_t option \<Rightarrow> fn_ptr option \<Rightarrow> ('w, 'c) button_t" where
  "button_ctor btn p_cfg cb =
     (case p_cfg of
        Some c \<Rightarrow>
          (let b1 = btn\<lparr>cfg := c\<rparr>;
               b2 = b1\<lparr>f_ev_cb := cb\<rparr>;
               b3 = b2\<lparr>state_jit_previous := ucast (active_lv c XOR BUTTON_LEVEL_HIGH)\<rparr>;
               b4 = b3\<lparr>state_jit_asserted := state_jit_previous b3\<rparr>
           in b4\<lparr>state_state := Some ON_IDLE\<rparr>)
      | None \<Rightarrow>
          (let b1 = btn\<lparr>cfg := (cfg btn)\<lparr>f_io_read := None\<rparr>\<rparr>
           in b1\<lparr>state_state := None\<rparr>))"

subsection \<open>Runs over several ticks\<close>

text \<open>
  The caller's polling loop: one \<^verbatim>\<open>button_scan\<close> per raw sample, collecting the returned
  events and the events handed to the callback.
\<close>

fun button_scans ::
  "('w::len, 'c::len) button_t option \<Rightarrow> u8 list
     \<Rightarrow> ('w, 'c) button_t option \<times> button_event_e list \<times> 'c button_ev_t list" where
  "button_scans p_btn [] = (p_btn, [], [])"
| "button_scans p_btn (r # rs) =
     (let (p1, ev, cb1) = button_scan p_btn r;
          (p2, evs, cb2) = button_scans p1 rs
      in (p2, ev # evs, cb1 @ cb2))"

text \<open>
  The state machine alone, fed with the logical inputs that \<^verbatim>\<open>button_scan\<close> derives at
  lines 194-197: one handler call per input. The second component lists the event of
  every tick, the third the events other than \<^verbatim>\<open>BTN_EVENT_NONE\<close> together with the click
  count after the handler ran, which is what line 200 hands to the callback.
\<close>

definition fsm_step ::
  "('w::len, 'c::len) button_t \<Rightarrow> BTN_IO_EVENT_E \<Rightarrow> ('w, 'c) button_t \<times> button_event_e" where
  "fsm_step p_btn io_ev =
     (case state_state p_btn of
        None \<Rightarrow> (p_btn, BTN_EVENT_NONE)
      | Some h \<Rightarrow> call_state h p_btn io_ev)"

fun fsm_run ::
  "('w::len, 'c::len) button_t \<Rightarrow> BTN_IO_EVENT_E list
     \<Rightarrow> ('w, 'c) button_t \<times> button_event_e list \<times> 'c button_ev_t list" where
  "fsm_run p_btn [] = (p_btn, [], [])"
| "fsm_run p_btn (io_ev # ios) =
     (let (b1, ev) = fsm_step p_btn io_ev;
          (b2, evs, out) = fsm_run b1 ios
      in (b2, ev # evs,
          (if ev \<noteq> BTN_EVENT_NONE then [\<lparr>ev_type = ev, clicks = state_click_cnt b1\<rparr>] else [])
            @ out))"

text \<open>The debounce filter alone over a sequence of raw samples: the output of every tick.\<close>

fun debounce_run ::
  "('w::len, 'c::len) button_t \<Rightarrow> u8 list \<Rightarrow> ('w, 'c) button_t \<times> u8 list" where
  "debounce_run p_btn [] = (p_btn, [])"
| "debounce_run p_btn (r # rs) =
     (let (b1, lv) = button_debounce p_btn r;
          (b2, lvs) = debounce_run b1 rs
      in (b2, lv # lvs))"

text \<open>
  The logical inputs of a sequence of raw samples: each output of the filter compared with
  the active level, as lines 194-197 do.
\<close>

definition io_events :: "('w::len, 'c::len) button_t \<Rightarrow> u8 list \<Rightarrow> BTN_IO_EVENT_E list" where
  "io_events p_btn rs =
     map (\<lambda>lv. if lv = active_lv (cfg p_btn) then BTN_IO_EVENT_DOWN else BTN_IO_EVENT_UP)
       (snd (debounce_run p_btn rs))"

text \<open>
  Filter and state machine together, without the guard and without the callback: what one
  tick computes between line 192 and line 197, repeated over a sequence of raw samples.
\<close>

fun filter_fsm_run ::
  "('w::len, 'c::len) button_t \<Rightarrow> u8 list \<Rightarrow> ('w, 'c) button_t \<times> button_event_e list" where
  "filter_fsm_run p_btn [] = (p_btn, [])"
| "filter_fsm_run p_btn (r # rs) =
     (let (b1, cur_level) = button_debounce p_btn r;
          (b2, ev) = fsm_step b1
             (if cur_level = active_lv (cfg b1) then BTN_IO_EVENT_DOWN else BTN_IO_EVENT_UP);
          (b3, evs) = filter_fsm_run b2 rs
      in (b3, ev # evs))"

subsection \<open>A concrete instance\<close>

text \<open>
  A configuration with an active-high line, a click window of two ticks and a long-click
  threshold of three ticks, and some stale memory for the constructor to start from; the
  debounce fields are single bits, the counters 16 bits wide.
\<close>

definition sample_cfg :: "16 button_cfg_t" where
  "sample_cfg = \<lparr>f_io_read = Some 1, active_lv = 1, up_max_cnt = 2, long_min_cnt = 3\<rparr>"

definition stale_btn :: "(1, 16) button_t" where
  "stale_btn =
     \<lparr>cfg = \<lparr>f_io_read = Some 7, active_lv = 0, up_max_cnt = 9, long_min_cnt = 9\<rparr>,
      f_ev_cb = Some 5, state_state = Some ON_DOWN_LONG, state_counter = 77,
      state_click_cnt = 55, state_jit_previous = 1, state_jit_asserted = 0\<rparr>"

section \<open>Basic facts\<close>

lemmas handler_defs =
  call_state_def on_idle_handler_def on_up_handler_def on_up_suspense_handler_def
  on_down_handler_def on_down_short_handler_def on_down_long_handler_def

text \<open>The table of \<^verbatim>\<open>dispatch_click_type\<close>, read off its argument.\<close>

lemma dispatch_click_type_cases:
  "dispatch_click_type c =
     (if c = 1 then BTN_EVENT_SINGLE_CLICK else if c = 2 then BTN_EVENT_DOUBLE_CLICK
      else if 3 \<le> c then BTN_EVENT_MORE_CLICK else BTN_EVENT_NONE)"
proof -
  have "c = 0 \<or> c = 1 \<or> c = 2" if "c < 3"
  proof -
    from that have "unat c < 3" by (simp add: word_less_nat_alt)
    then have "unat c = 0 \<or> unat c = 1 \<or> unat c = 2" by arith
    then show ?thesis by (auto simp: word_unat_eq_iff)
  qed
  then show ?thesis
    by (auto simp: dispatch_click_type_def click_type_def not_le)
qed

text \<open>The filter writes the two debounce fields only; a handler never writes them.\<close>

lemma debounce_fields:
  "button_debounce p_btn cur_lv =
     (p_btn\<lparr>state_jit_asserted :=
              (state_jit_asserted p_btn OR (state_jit_previous p_btn AND ucast cur_lv))
                AND (state_jit_previous p_btn OR ucast cur_lv),
            state_jit_previous := ucast cur_lv\<rparr>,
      ucast ((state_jit_asserted p_btn OR (state_jit_previous p_btn AND ucast cur_lv))
                AND (state_jit_previous p_btn OR ucast cur_lv)))"
  by (simp add: button_debounce_def Let_def)

lemma debounce_keeps:
  "cfg (fst (button_debounce b r)) = cfg b"
  "f_ev_cb (fst (button_debounce b r)) = f_ev_cb b"
  "state_state (fst (button_debounce b r)) = state_state b"
  "state_counter (fst (button_debounce b r)) = state_counter b"
  "state_click_cnt (fst (button_debounce b r)) = state_click_cnt b"
  by (simp_all add: button_debounce_def Let_def)

lemma call_state_keeps:
  "cfg (fst (call_state h b io)) = cfg b"
  "f_ev_cb (fst (call_state h b io)) = f_ev_cb b"
  "state_jit_previous (fst (call_state h b io)) = state_jit_previous b"
  "state_jit_asserted (fst (call_state h b io)) = state_jit_asserted b"
  by (cases h; simp add: handler_defs Let_def)+

lemma call_state_state:
  "state_state b \<noteq> None \<Longrightarrow> state_state (fst (call_state h b io)) \<noteq> None"
  by (cases h; simp add: handler_defs Let_def)

text \<open>
  What a handler does to the click count: nothing, except that a press in Idle or Up
  opens a window with count 1 and a press in UpSuspense adds one.
\<close>

lemma call_state_click_cnt:
  "state_click_cnt (fst (call_state h b io)) = state_click_cnt b
   \<or> io = BTN_IO_EVENT_DOWN \<and> h \<in> {ON_IDLE, ON_UP} \<and> state_click_cnt (fst (call_state h b io)) = 1
   \<or> io = BTN_IO_EVENT_DOWN \<and> h = ON_UP_SUSPENSE
     \<and> state_click_cnt (fst (call_state h b io)) = state_click_cnt b + 1"
  by (cases h; cases io; simp add: handler_defs Let_def)

text \<open>The scan of a disabled instance, and the scan of an enabled one spelled out.\<close>

lemma scan_disabled:
  assumes "p_btn = None \<or> (\<exists>b. p_btn = Some b \<and> (f_io_read (cfg b) = None \<or> state_state b = None))"
  shows "button_scan p_btn r = (p_btn, BTN_EVENT_NONE, [])"
  using assms by (auto simp: button_scan_def split: option.splits)

lemma scans_disabled:
  assumes "p_btn = None \<or> (\<exists>b. p_btn = Some b \<and> (f_io_read (cfg b) = None \<or> state_state b = None))"
  shows "button_scans p_btn rs = (p_btn, replicate (length rs) BTN_EVENT_NONE, [])"
  by (induction rs) (simp_all add: scan_disabled [OF assms])

lemma button_scan_enabled:
  assumes "f_io_read (cfg b) \<noteq> None" and "state_state b = Some h"
  shows "button_scan (Some b) r =
     (let b1 = fst (button_debounce b r);
          io_ev = (if snd (button_debounce b r) = active_lv (cfg b)
                   then BTN_IO_EVENT_DOWN else BTN_IO_EVENT_UP);
          b2 = fst (call_state h b1 io_ev);
          ev = snd (call_state h b1 io_ev)
      in (Some b2, ev,
          if ev \<noteq> BTN_EVENT_NONE \<and> f_ev_cb b \<noteq> None
          then [\<lparr>ev_type = ev, clicks = state_click_cnt b2\<rparr>] else []))"
  using assms
  by (auto simp add: button_scan_def Let_def split_beta debounce_keeps call_state_keeps)

subsection \<open>Counting ticks\<close>

text \<open>
  The pre-increment of the counter against a threshold \<open>L\<close> of the same width: below the
  threshold the counter does not wrap, and the comparison turns true exactly when the
  incremented counter reaches \<open>max 1 L\<close> (a threshold of 0 is met by the first increment).
\<close>

lemma counter_below:
  fixes c L :: "'c::len word"
  assumes "unat c + 1 < unat L"
  shows "unat (c + 1) = unat c + 1" and "\<not> L \<le> c + 1"
proof -
  have "unat L < 2 ^ LENGTH('c)" by (rule unsigned_less)
  with assms have "unat c + 1 < 2 ^ LENGTH('c)" by linarith
  then have "unat c + unat (1::'c word) < 2 ^ LENGTH('c)" by simp
  then show u: "unat (c + 1) = unat c + 1" by (simp add: unat_add_lem [THEN iffD1])
  from assms u show "\<not> L \<le> c + 1" by (simp add: word_le_nat_alt)
qed

lemma counter_reached:
  fixes c L :: "'c::len word"
  assumes "unat c + 1 = max 1 (unat L)"
  shows "L \<le> c + 1"
proof (cases "L = 0")
  case True
  then show ?thesis by simp
next
  case False
  then have "unat L \<noteq> 0" by (simp add: unat_eq_0)
  with assms have e: "unat c + 1 = unat L" by simp
  have "unat L < 2 ^ LENGTH('c)" by (rule unsigned_less)
  with e have "unat c + 1 < 2 ^ LENGTH('c)" by linarith
  then have "unat c + unat (1::'c word) < 2 ^ LENGTH('c)" by simp
  then have "unat (c + 1) = unat c + 1" by (simp add: unat_add_lem [THEN iffD1])
  with e show ?thesis by (simp add: word_le_nat_alt)
qed

lemma unat_below_threshold:
  fixes L :: "'c::len word"
  assumes "j < max 1 (unat L)"
  shows "unat (of_nat j :: 'c word) = j"
proof -
  have "unat L < 2 ^ LENGTH('c)" by (rule unsigned_less)
  moreover have "(1::nat) < 2 ^ LENGTH('c)" by (rule one_less_power) simp_all
  ultimately have "max 1 (unat L) < 2 ^ LENGTH('c)" by (simp add: max_def)
  with assms have "j < 2 ^ LENGTH('c)" by linarith
  then show ?thesis by (simp add: unat_of_nat)
qed

subsection \<open>Runs of the state machine\<close>

lemma fsm_run_append:
  "fsm_run b (xs @ ys) =
     (let (b1, e1, o1) = fsm_run b xs; (b2, e2, o2) = fsm_run b1 ys in (b2, e1 @ e2, o1 @ o2))"
  by (induction xs arbitrary: b) (auto simp: Let_def split: prod.splits)

text \<open>Holding the button in Down, below the long-click threshold, only counts.\<close>

lemma down_hold:
  assumes "state_state b = Some ON_DOWN"
    and "unat (state_counter b) + j < max 1 (unat (long_min_cnt (cfg b)))"
  shows "fsm_run b (replicate j BTN_IO_EVENT_DOWN) =
           (b\<lparr>state_counter := state_counter b + of_nat j\<rparr>, replicate j BTN_EVENT_NONE, [])"
  using assms
proof (induction j arbitrary: b)
  case 0
  then show ?case by simp
next
  case (Suc j)
  let ?b1 = "b\<lparr>state_counter := state_counter b + 1\<rparr>"
  from Suc.prems have lt: "unat (state_counter b) + 1 < unat (long_min_cnt (cfg b))" by simp
  have step: "fsm_step b BTN_IO_EVENT_DOWN = (?b1, BTN_EVENT_NONE)"
    using Suc.prems(1) counter_below(2) [OF lt]
    by (simp add: fsm_step_def handler_defs Let_def)
  have "fsm_run ?b1 (replicate j BTN_IO_EVENT_DOWN) =
          (?b1\<lparr>state_counter := state_counter ?b1 + of_nat j\<rparr>, replicate j BTN_EVENT_NONE, [])"
    using Suc.prems counter_below(1) [OF lt] by (intro Suc.IH) simp_all
  with step show ?case by (simp add: add.assoc)
qed

text \<open>Staying released in UpSuspense, before the window closes, only counts.\<close>

lemma up_suspense_hold:
  assumes "state_state b = Some ON_UP_SUSPENSE"
    and "unat (state_counter b) + j < max 1 (unat (up_max_cnt (cfg b)))"
  shows "fsm_run b (replicate j BTN_IO_EVENT_UP) =
           (b\<lparr>state_counter := state_counter b + of_nat j\<rparr>, replicate j BTN_EVENT_NONE, [])"
  using assms
proof (induction j arbitrary: b)
  case 0
  then show ?case by simp
next
  case (Suc j)
  let ?b1 = "b\<lparr>state_counter := state_counter b + 1\<rparr>"
  from Suc.prems have lt: "unat (state_counter b) + 1 < unat (up_max_cnt (cfg b))" by simp
  have step: "fsm_step b BTN_IO_EVENT_UP = (?b1, BTN_EVENT_NONE)"
    using Suc.prems(1) counter_below(2) [OF lt]
    by (simp add: fsm_step_def handler_defs Let_def)
  have "fsm_run ?b1 (replicate j BTN_IO_EVENT_UP) =
          (?b1\<lparr>state_counter := state_counter ?b1 + of_nat j\<rparr>, replicate j BTN_EVENT_NONE, [])"
    using Suc.prems counter_below(1) [OF lt] by (intro Suc.IH) simp_all
  with step show ?case by (simp add: add.assoc)
qed

lemma up_rest:
  assumes "state_state b = Some ON_UP"
  shows "fsm_run b (replicate j BTN_IO_EVENT_UP) = (b, replicate j BTN_EVENT_NONE, [])"
  using assms by (induction j) (simp_all add: fsm_step_def handler_defs)


subsection \<open>The filter at rest\<close>

text \<open>
  A level and the level XOR-ed with \<^verbatim>\<open>BUTTON_LEVEL_HIGH\<close> differ in bit 0, whatever the
  width they pass through.
\<close>

lemma released_level_differs:
  "ucast (ucast (lv XOR BUTTON_LEVEL_HIGH) :: 'w::len word) \<noteq> (lv :: u8)"
proof
  assume "ucast (ucast (lv XOR BUTTON_LEVEL_HIGH) :: 'w word) = lv"
  then have "bit (ucast (ucast (lv XOR BUTTON_LEVEL_HIGH) :: 'w word) :: u8) 0 = bit lv 0"
    by simp
  then show False
    by (simp add: bit_word_ucast_iff bit_xor_iff BUTTON_LEVEL_HIGH_def)
qed

lemma debounce_settled:
  fixes b :: "('w::len, 'c::len) button_t"
  assumes "state_jit_previous b = ucast r" and "state_jit_asserted b = ucast r"
  shows "button_debounce b r = (b, ucast (ucast r :: 'w word))"
proof -
  have "b\<lparr>state_jit_asserted := ucast r, state_jit_previous := ucast r\<rparr> = b"
    using assms by (cases b) simp
  with assms show ?thesis by (simp add: debounce_fields)
qed

lemma quiet_scan:
  fixes b :: "('w::len, 'c::len) button_t"
  assumes "state_jit_previous b = ucast (active_lv (cfg b) XOR BUTTON_LEVEL_HIGH)"
    and "state_jit_asserted b = ucast (active_lv (cfg b) XOR BUTTON_LEVEL_HIGH)"
    and "state_state b \<in> {Some ON_IDLE, Some ON_UP}"
  shows "button_scan (Some b) (active_lv (cfg b) XOR BUTTON_LEVEL_HIGH) =
           (Some (if f_io_read (cfg b) = None then b else b\<lparr>state_state := Some ON_UP\<rparr>),
            BTN_EVENT_NONE, [])"
proof (cases "f_io_read (cfg b) = None")
  case True
  then show ?thesis by (simp add: button_scan_def)
next
  case False
  have up: "b\<lparr>state_state := Some ON_UP\<rparr> = b" if "state_state b = Some ON_UP"
    using that by (cases b) simp
  from assms(3) False show ?thesis
    using released_level_differs [where 'w = 'w, of "active_lv (cfg b)"]
    by (auto simp: button_scan_def debounce_settled [OF assms(1,2)] handler_defs up)
qed

lemma quiet_scans:
  fixes b :: "('w::len, 'c::len) button_t"
  assumes "state_jit_previous b = ucast (active_lv (cfg b) XOR BUTTON_LEVEL_HIGH)"
    and "state_jit_asserted b = ucast (active_lv (cfg b) XOR BUTTON_LEVEL_HIGH)"
    and "state_state b \<in> {Some ON_IDLE, Some ON_UP}"
    and "\<forall>r \<in> set rs. r = active_lv (cfg b) XOR BUTTON_LEVEL_HIGH"
  shows "button_scans (Some b) rs =
           (Some (if rs = [] \<or> f_io_read (cfg b) = None then b
                  else b\<lparr>state_state := Some ON_UP\<rparr>),
            replicate (length rs) BTN_EVENT_NONE, [])"
  using assms
proof (induction rs arbitrary: b)
  case Nil
  then show ?case by simp
next
  case (Cons r rs)
  define b' where "b' = (if f_io_read (cfg b) = None then b else b\<lparr>state_state := Some ON_UP\<rparr>)"
  from Cons.prems have r: "r = active_lv (cfg b) XOR BUTTON_LEVEL_HIGH" by simp
  have step: "button_scan (Some b) r = (Some b', BTN_EVENT_NONE, [])"
    unfolding r b'_def using Cons.prems(1-3) by (rule quiet_scan)
  have "button_scans (Some b') rs =
           (Some (if rs = [] \<or> f_io_read (cfg b') = None then b'
                  else b'\<lparr>state_state := Some ON_UP\<rparr>),
            replicate (length rs) BTN_EVENT_NONE, [])"
    using Cons.prems by (intro Cons.IH) (auto simp: b'_def)
  with step show ?case by (auto simp: b'_def)
qed

subsection \<open>Scans without a callback\<close>

lemma scans_null_callback:
  assumes "f_io_read (cfg b) \<noteq> None" and "state_state b \<noteq> None" and "f_ev_cb b = None"
  shows "button_scans (Some b) rs =
           (Some (fst (filter_fsm_run b rs)), snd (filter_fsm_run b rs), [])"
  using assms
proof (induction rs arbitrary: b)
  case Nil
  then show ?case by simp
next
  case (Cons r rs)
  from Cons.prems obtain h where h: "state_state b = Some h" by auto
  define b1 where "b1 = fst (button_debounce b r)"
  define io_ev where "io_ev = (if snd (button_debounce b r) = active_lv (cfg b)
                   then BTN_IO_EVENT_DOWN else BTN_IO_EVENT_UP)"
  define b2 where "b2 = fst (call_state h b1 io_ev)"
  have scan: "button_scan (Some b) r = (Some b2, snd (call_state h b1 io_ev), [])"
    using Cons.prems(3)
    by (simp add: button_scan_enabled [OF Cons.prems(1) h] Let_def b1_def io_ev_def b2_def)
  have step: "fsm_step b1 io_ev = (b2, snd (call_state h b1 io_ev))"
    by (simp add: fsm_step_def b1_def b2_def debounce_keeps h)
  have "button_scans (Some b2) rs =
           (Some (fst (filter_fsm_run b2 rs)), snd (filter_fsm_run b2 rs), [])"
    using Cons.prems h
    by (intro Cons.IH)
      (simp_all add: b2_def b1_def call_state_keeps debounce_keeps call_state_state)
  with scan step show ?case
    by (simp add: split_beta Let_def b1_def io_ev_def debounce_keeps)
qed

subsection \<open>The scan as a run of the state machine\<close>

text \<open>
  The handlers neither read nor write the debounce fields, and the filter reads nothing
  else. So the events a sequence of scans returns, and the events it hands to a callback,
  are those of the state machine run on the logical inputs of the samples.
\<close>

lemma call_state_jit:
  "call_state h (b\<lparr>state_jit_asserted := a, state_jit_previous := p\<rparr>) io =
     ((fst (call_state h b io))\<lparr>state_jit_asserted := a, state_jit_previous := p\<rparr>,
      snd (call_state h b io))"
  by (cases h; cases io; simp add: handler_defs Let_def)

lemma fsm_run_jit:
  "fsm_run (b\<lparr>state_jit_asserted := a, state_jit_previous := p\<rparr>) ios =
     ((fst (fsm_run b ios))\<lparr>state_jit_asserted := a, state_jit_previous := p\<rparr>,
      snd (fsm_run b ios))"
proof (induction ios arbitrary: b)
  case Nil
  then show ?case by simp
next
  case (Cons io ios)
  show ?case
  proof (cases "state_state b")
    case None
    with Cons.IH [of b] show ?thesis by (simp add: fsm_step_def split_beta)
  next
    case (Some h)
    with Cons.IH [of "fst (call_state h b io)"] show ?thesis
      by (simp add: fsm_step_def split_beta call_state_jit)
  qed
qed

lemma debounce_run_cong:
  assumes "state_jit_previous b = state_jit_previous b'"
    and "state_jit_asserted b = state_jit_asserted b'"
  shows "snd (debounce_run b rs) = snd (debounce_run b' rs)"
  using assms
proof (induction rs arbitrary: b b')
  case Nil
  then show ?case by simp
next
  case (Cons r rs)
  have "snd (debounce_run (fst (button_debounce b r)) rs) =
        snd (debounce_run (fst (button_debounce b' r)) rs)"
    using Cons.prems by (intro Cons.IH) (simp_all add: debounce_fields)
  with Cons.prems show ?case by (simp add: split_beta debounce_fields)
qed

lemma scans_follow_fsm_run:
  assumes "f_io_read (cfg b) \<noteq> None" and "state_state b \<noteq> None" and "f_ev_cb b \<noteq> None"
  shows "snd (button_scans (Some b) rs) = snd (fsm_run b (io_events b rs))"
  using assms
proof (induction rs arbitrary: b)
  case Nil
  then show ?case by (simp add: io_events_def)
next
  case (Cons r rs)
  from Cons.prems obtain h where h: "state_state b = Some h" by auto
  define b1 where "b1 = fst (button_debounce b r)"
  define io_ev where "io_ev = (if snd (button_debounce b r) = active_lv (cfg b)
                   then BTN_IO_EVENT_DOWN else BTN_IO_EVENT_UP)"
  define b2 where "b2 = fst (call_state h b1 io_ev)"
  define c2 where "c2 = fst (call_state h b io_ev)"
  define ev where "ev = snd (call_state h b io_ev)"
  have b1: "b1 = b\<lparr>state_jit_asserted := state_jit_asserted b1,
                   state_jit_previous := state_jit_previous b1\<rparr>"
    by (simp add: b1_def debounce_fields)
  have cs: "call_state h b1 io_ev =
      (c2\<lparr>state_jit_asserted := state_jit_asserted b1, state_jit_previous := state_jit_previous b1\<rparr>, ev)"
    by (subst b1) (simp add: call_state_jit c2_def ev_def)
  then have b2: "b2 = c2\<lparr>state_jit_asserted := state_jit_asserted b1,
                         state_jit_previous := state_jit_previous b1\<rparr>"
    by (simp add: b2_def)
  have scan: "button_scan (Some b) r =
      (Some b2, ev, if ev \<noteq> BTN_EVENT_NONE then [\<lparr>ev_type = ev, clicks = state_click_cnt b2\<rparr>] else [])"
    using Cons.prems(3) cs
    by (simp add: button_scan_enabled [OF Cons.prems(1) h] Let_def b1_def io_ev_def b2_def)
  have step: "fsm_step b io_ev = (c2, ev)"
    by (simp add: fsm_step_def h c2_def ev_def)
  have ios: "io_events b (r # rs) = io_ev # io_events b2 rs"
  proof -
    have "snd (debounce_run b1 rs) = snd (debounce_run b2 rs)"
      by (rule debounce_run_cong) (simp_all add: b2_def call_state_keeps)
    moreover have "cfg b2 = cfg b"
      by (simp add: b2_def b1_def call_state_keeps debounce_keeps)
    ultimately show ?thesis
      by (simp add: io_events_def split_beta io_ev_def b1_def)
  qed
  have ih: "snd (button_scans (Some b2) rs) = snd (fsm_run b2 (io_events b2 rs))"
    using Cons.prems h
    by (intro Cons.IH)
      (simp_all add: b2_def b1_def call_state_keeps debounce_keeps call_state_state)
  have jit: "snd (fsm_run b2 (io_events b2 rs)) = snd (fsm_run c2 (io_events b2 rs))"
    by (subst b2) (simp add: fsm_run_jit)
  have cc: "state_click_cnt b2 = state_click_cnt c2"
    by (subst b2) simp
  show ?case
    using ih
    by (simp add: scan ios step split_beta jit cc)
qed

subsection \<open>The raw samples of a press\<close>

text \<open>
  The filter passes a new level on at its second consecutive sample: from rest at a
  binary level \<open>s\<close>, samples at the other level \<open>r\<close> give the outputs \<open>s, r, r, \<dots>\<close>.
\<close>

lemma debounce_run_append:
  "debounce_run b (xs @ ys) =
     (let (b1, l1) = debounce_run b xs; (b2, l2) = debounce_run b1 ys in (b2, l1 @ l2))"
  by (induction xs arbitrary: b) (auto simp: Let_def split: prod.splits)

lemma binary_level_cases:
  fixes lv :: u8
  assumes "lv \<le> 1"
  shows "lv = 0 \<or> lv = 1"
proof -
  from assms have "unat lv \<le> 1" by (simp add: word_le_nat_alt)
  then have "unat lv = 0 \<or> unat lv = 1" by arith
  then show ?thesis by (auto simp: word_unat_eq_iff)
qed

lemma debounce_run_settled:
  fixes b :: "('w::len, 'c::len) button_t"
  assumes "state_jit_previous b = ucast r" and "state_jit_asserted b = ucast r"
  shows "debounce_run b (replicate k r) = (b, replicate k (ucast (ucast r :: 'w word)))"
  by (induction k) (simp_all add: debounce_settled [OF assms])

lemma debounce_run_edge:
  fixes b :: "('w::len, 'c::len) button_t"
  assumes "s = 0 \<and> r = 1 \<or> s = 1 \<and> r = 0"
    and "state_jit_previous b = ucast s" and "state_jit_asserted b = ucast s"
  shows "debounce_run b (replicate (Suc (Suc k)) r) =
           (b\<lparr>state_jit_asserted := ucast r, state_jit_previous := ucast r\<rparr>,
            s # replicate (Suc k) r)"
proof -
  let ?b2 = "b\<lparr>state_jit_asserted := ucast r, state_jit_previous := ucast r\<rparr>"
  have one: "button_debounce b r = (b\<lparr>state_jit_previous := ucast r\<rparr>, s)"
  proof -
    have "b\<lparr>state_jit_asserted := ucast s, state_jit_previous := ucast r\<rparr>
            = b\<lparr>state_jit_previous := ucast r\<rparr>"
      using assms(3) by (cases b) simp
    with assms show ?thesis by (auto simp: debounce_fields)
  qed
  have two: "button_debounce (b\<lparr>state_jit_previous := ucast r\<rparr>) r = (?b2, r)"
    using assms by (auto simp: debounce_fields)
  have rest: "debounce_run ?b2 (replicate k r) = (?b2, replicate k r)"
  proof -
    have "ucast (ucast r :: 'w word) = r" using assms(1) by auto
    with debounce_run_settled [of ?b2 r k] show ?thesis by simp
  qed
  show ?thesis by (simp add: one two rest)
qed

text \<open>
  An instance at rest at the released level, fed with the active level for at least two
  samples and then with the released level for at least two: the state machine sees one
  Released tick, Pressed ticks up to and including the first released sample, and
  Released ticks from the second released sample on.
\<close>

lemma io_events_press:
  fixes b :: "('w::len, 'c::len) button_t"
  assumes bin: "active_lv (cfg b) \<le> 1"
    and p: "state_jit_previous b = ucast (active_lv (cfg b) XOR BUTTON_LEVEL_HIGH)"
    and a: "state_jit_asserted b = ucast (active_lv (cfg b) XOR BUTTON_LEVEL_HIGH)"
  shows "io_events b (replicate (Suc (Suc n)) (active_lv (cfg b))
                        @ replicate (Suc (Suc m)) (active_lv (cfg b) XOR BUTTON_LEVEL_HIGH)) =
           BTN_IO_EVENT_UP # replicate (Suc n) BTN_IO_EVENT_DOWN
             @ BTN_IO_EVENT_DOWN # replicate (Suc m) BTN_IO_EVENT_UP"
proof -
  define A where "A = active_lv (cfg b)"
  define R where "R = A XOR BUTTON_LEVEL_HIGH"
  from binary_level_cases [OF bin] have AR: "R = 0 \<and> A = 1 \<or> R = 1 \<and> A = 0"
    by (auto simp: A_def R_def BUTTON_LEVEL_HIGH_def)
  then have RA: "A = 0 \<and> R = 1 \<or> A = 1 \<and> R = 0" and ne: "R \<noteq> A" by auto
  let ?b1 = "b\<lparr>state_jit_asserted := ucast A, state_jit_previous := ucast A\<rparr>"
  have d1: "debounce_run b (replicate (Suc (Suc n)) A) = (?b1, R # replicate (Suc n) A)"
    using AR p a by (intro debounce_run_edge) (simp_all add: A_def R_def)
  have d2: "debounce_run ?b1 (replicate (Suc (Suc m)) R) =
      (?b1\<lparr>state_jit_asserted := ucast R, state_jit_previous := ucast R\<rparr>,
       A # replicate (Suc m) R)"
    using RA by (intro debounce_run_edge) simp_all
  have "snd (debounce_run b (replicate (Suc (Suc n)) A @ replicate (Suc (Suc m)) R)) =
          (R # replicate (Suc n) A) @ A # replicate (Suc m) R"
    by (simp only: debounce_run_append d1 d2 Let_def prod.case snd_conv)
  then show ?thesis
    using ne unfolding io_events_def A_def [symmetric] R_def [symmetric]
    by (simp add: A_def [symmetric])
qed

section \<open>The debounce filter\<close>

text \<open>
  C4. On every tick, with prior stable value \<open>a\<close>, prior raw sample \<open>p\<close> and current raw
  sample \<open>r\<close> (taken at the width of the fields), the filter stores and returns
  \<open>a' = (a OR (p AND r)) AND (p OR r)\<close> and stores \<open>r\<close> as the previous sample; no other
  field of the instance changes.
\<close>

theorem debounce_update:
  "button_debounce p_btn cur_lv =
     (p_btn\<lparr>state_jit_asserted :=
              (state_jit_asserted p_btn OR (state_jit_previous p_btn AND ucast cur_lv))
                AND (state_jit_previous p_btn OR ucast cur_lv),
            state_jit_previous := ucast cur_lv\<rparr>,
      ucast ((state_jit_asserted p_btn OR (state_jit_previous p_btn AND ucast cur_lv))
                AND (state_jit_previous p_btn OR ucast cur_lv)))"
  by (simp add: button_debounce_def Let_def)

text \<open>
  With single-bit fields the update reads: when the current sample equals the previous
  one the output takes that level, and when the two differ the output keeps its prior
  value.
\<close>

lemma one_bit_cases: "(x :: 1 word) = 0 \<or> x = 1"
proof -
  have "unat x < 2" using unsigned_less [of x] by simp
  then have "unat x = 0 \<or> unat x = 1" by arith
  then show ?thesis by (auto simp: word_unat_eq_iff)
qed

lemma debounce_one_bit:
  fixes b :: "(1, 'c::len) button_t"
  shows "snd (button_debounce b r) =
           ucast (if state_jit_previous b = ucast r then ucast r else state_jit_asserted b)"
  using one_bit_cases [of "state_jit_previous b"] one_bit_cases [of "state_jit_asserted b"]
    one_bit_cases [of "ucast r"]
  by (auto simp: debounce_fields)

text \<open>
  C1. The claim, like the table in the comment at lines 173-176 of button.c, gives the
  output as 1 exactly when the two most recent raw samples were both 1, so that the pairs
  (1,0) and (0,1) give 0 whatever the output was before. The code keeps the prior output
  on such a pair. On the instance constructed from \<open>sample_cfg\<close> (both fields start at 0)
  the samples 1, 1, 0 give the outputs 0, 1, 1: the third output is 1 although the last
  two samples are (1,0). On an active-low instance (both fields start at 1) the samples
  0, 1 give the outputs 1, 1: the second output is 1 although the last two samples are
  (0,1).
\<close>

theorem debounce_holds_on_disagreement:
  "snd (debounce_run (button_ctor stale_btn (Some sample_cfg) (Some 3)) [1, 1, 0]) = [0, 1, 1]
   \<and> snd (debounce_run (button_ctor stale_btn (Some (sample_cfg\<lparr>active_lv := 0\<rparr>)) (Some 3))
        [0, 1]) = [1, 1]"
  by (simp add: button_ctor_def sample_cfg_def stale_btn_def button_debounce_def Let_def
      BUTTON_LEVEL_HIGH_def)

section \<open>Single transitions\<close>

text \<open>
  C6. In state DownShort a Pressed input pre-increments the counter. If the incremented
  counter has reached \<open>up_max_cnt\<close>, the machine emits the classification of the current
  click count, resets the counter to 0 and moves to DownLong; otherwise it emits nothing,
  keeps the incremented counter and stays in DownShort. The classification, on the
  \<^verbatim>\<open>uint32_t\<close> argument of \<^verbatim>\<open>dispatch_click_type\<close>, is 1 to SingleClick, 2 to DoubleClick,
  3 and more to MoreClick (and 0 to None).
\<close>

theorem down_short_pressed:
  assumes "state_state p_btn = Some ON_DOWN_SHORT"
  shows "fsm_step p_btn BTN_IO_EVENT_DOWN =
           (if up_max_cnt (cfg p_btn) \<le> state_counter p_btn + 1
            then (p_btn\<lparr>state_counter := 0, state_state := Some ON_DOWN_LONG\<rparr>,
                  dispatch_click_type (ucast (state_click_cnt p_btn)))
            else (p_btn\<lparr>state_counter := state_counter p_btn + 1\<rparr>, BTN_EVENT_NONE))
         \<and> dispatch_click_type c =
             (if c = 1 then BTN_EVENT_SINGLE_CLICK else if c = 2 then BTN_EVENT_DOUBLE_CLICK
              else if 3 \<le> c then BTN_EVENT_MORE_CLICK else BTN_EVENT_NONE)"
  using assms
  by (simp add: fsm_step_def call_state_def on_down_short_handler_def Let_def
      dispatch_click_type_cases)

text \<open>
  In DownShort with click count 2 and \<open>up_max_cnt = 2\<close>: the first Pressed tick only
  counts, the second one emits DoubleClick and enters DownLong.
\<close>

theorem down_short_pressed_witness:
  "fsm_step ((button_ctor stale_btn (Some sample_cfg) (Some 3))
       \<lparr>state_state := Some ON_DOWN_SHORT, state_counter := 0, state_click_cnt := 2\<rparr>)
     BTN_IO_EVENT_DOWN =
     ((button_ctor stale_btn (Some sample_cfg) (Some 3))
       \<lparr>state_state := Some ON_DOWN_SHORT, state_counter := 1, state_click_cnt := 2\<rparr>,
      BTN_EVENT_NONE)
   \<and> fsm_step ((button_ctor stale_btn (Some sample_cfg) (Some 3))
       \<lparr>state_state := Some ON_DOWN_SHORT, state_counter := 1, state_click_cnt := 2\<rparr>)
     BTN_IO_EVENT_DOWN =
     ((button_ctor stale_btn (Some sample_cfg) (Some 3))
       \<lparr>state_state := Some ON_DOWN_LONG, state_counter := 0, state_click_cnt := 2\<rparr>,
      BTN_EVENT_DOUBLE_CLICK)"
  using down_short_pressed [of "(button_ctor stale_btn (Some sample_cfg) (Some 3))
       \<lparr>state_state := Some ON_DOWN_SHORT, state_counter := 0, state_click_cnt := 2\<rparr>" 2]
    down_short_pressed [of "(button_ctor stale_btn (Some sample_cfg) (Some 3))
       \<lparr>state_state := Some ON_DOWN_SHORT, state_counter := 1, state_click_cnt := 2\<rparr>" 2]
  by (simp add: button_ctor_def sample_cfg_def stale_btn_def Let_def word_le_nat_alt)

text \<open>
  C8. In each of the three pressed states (Down, DownShort, DownLong) a Released input
  makes the handler return Popup, whatever the counter holds. At the level of the scan:
  when the read function is present and the debounced level differs from the active
  level, the scan returns Popup on that tick and hands it, with the click count, to the
  callback if there is one.
\<close>

theorem release_emits_popup:
  assumes "state_state p_btn \<in> {Some ON_DOWN, Some ON_DOWN_SHORT, Some ON_DOWN_LONG}"
  shows "snd (fsm_step p_btn BTN_IO_EVENT_UP) = BTN_EVENT_POPUP
       \<and> (f_io_read (cfg p_btn) \<noteq> None \<and> snd (button_debounce p_btn r) \<noteq> active_lv (cfg p_btn)
          \<longrightarrow> fst (snd (button_scan (Some p_btn) r)) = BTN_EVENT_POPUP
            \<and> snd (snd (button_scan (Some p_btn) r)) =
                (if f_ev_cb p_btn = None then []
                 else [\<lparr>ev_type = BTN_EVENT_POPUP, clicks = state_click_cnt p_btn\<rparr>]))"
  using assms
  by (auto simp: fsm_step_def handler_defs button_scan_def button_debounce_def Let_def
      split: prod.splits)

theorem release_emits_popup_witness:
  "button_scan (Some ((button_ctor stale_btn (Some sample_cfg) (Some 3))
       \<lparr>state_state := Some ON_DOWN, state_counter := 0, state_click_cnt := 1\<rparr>)) 0 =
     (Some ((button_ctor stale_btn (Some sample_cfg) (Some 3))
       \<lparr>state_state := Some ON_UP_SUSPENSE, state_counter := 0, state_click_cnt := 1\<rparr>),
      BTN_EVENT_POPUP, [\<lparr>ev_type = BTN_EVENT_POPUP, clicks = 1\<rparr>])
   \<and> snd (fsm_step ((button_ctor stale_btn (Some sample_cfg) (Some 3))
       \<lparr>state_state := Some ON_DOWN_SHORT\<rparr>) BTN_IO_EVENT_UP) = BTN_EVENT_POPUP
   \<and> snd (fsm_step ((button_ctor stale_btn (Some sample_cfg) (Some 3))
       \<lparr>state_state := Some ON_DOWN_LONG\<rparr>) BTN_IO_EVENT_UP) = BTN_EVENT_POPUP"
  using release_emits_popup [of "(button_ctor stale_btn (Some sample_cfg) (Some 3))
       \<lparr>state_state := Some ON_DOWN, state_counter := 0, state_click_cnt := 1\<rparr>" 0]
    release_emits_popup [of "(button_ctor stale_btn (Some sample_cfg) (Some 3))
       \<lparr>state_state := Some ON_DOWN_SHORT\<rparr>" 0]
    release_emits_popup [of "(button_ctor stale_btn (Some sample_cfg) (Some 3))
       \<lparr>state_state := Some ON_DOWN_LONG\<rparr>" 0]
  by (simp add: button_scan_def button_ctor_def sample_cfg_def stale_btn_def
      button_debounce_def Let_def BUTTON_LEVEL_HIGH_def handler_defs)

section \<open>Ticks without an event\<close>

text \<open>
  C2, as the code has it. A scan that returns None hands nothing to the callback. Two
  kinds of tick write the click count and always return None: a Pressed tick (read
  function present, debounced level equal to the active level) in Idle or Up sets the
  count to 1, resets the counter and enters Down; a Pressed tick in UpSuspense increments
  the count, resets the counter and enters DownShort. Every other scan that returns None
  leaves the click count as it was.
\<close>

theorem none_tick_frame:
  "(button_scan (Some b) r = (p', BTN_EVENT_NONE, calls) \<longrightarrow>
      calls = []
      \<and> (\<exists>b'. p' = Some b'
           \<and> (\<not> (f_io_read (cfg b) \<noteq> None
                  \<and> snd (button_debounce b r) = active_lv (cfg b)
                  \<and> state_state b \<in> {Some ON_IDLE, Some ON_UP, Some ON_UP_SUSPENSE})
                \<longrightarrow> state_click_cnt b' = state_click_cnt b)))
   \<and> (f_io_read (cfg b) \<noteq> None \<and> snd (button_debounce b r) = active_lv (cfg b)
        \<and> state_state b \<in> {Some ON_IDLE, Some ON_UP} \<longrightarrow>
      button_scan (Some b) r =
        (Some ((fst (button_debounce b r))
                 \<lparr>state_counter := 0, state_click_cnt := 1, state_state := Some ON_DOWN\<rparr>),
         BTN_EVENT_NONE, []))
   \<and> (f_io_read (cfg b) \<noteq> None \<and> snd (button_debounce b r) = active_lv (cfg b)
        \<and> state_state b = Some ON_UP_SUSPENSE \<longrightarrow>
      button_scan (Some b) r =
        (Some ((fst (button_debounce b r))
                 \<lparr>state_counter := 0, state_click_cnt := state_click_cnt b + 1,
                  state_state := Some ON_DOWN_SHORT\<rparr>),
         BTN_EVENT_NONE, []))"
proof (intro conjI impI)
  assume scan: "button_scan (Some b) r = (p', BTN_EVENT_NONE, calls)"
  show "calls = []"
  proof (cases "f_io_read (cfg b) = None \<or> state_state b = None")
    case True
    then have "button_scan (Some b) r = (Some b, BTN_EVENT_NONE, [])"
      by (intro scan_disabled) simp
    with scan show ?thesis by simp
  next
    case False
    then obtain h where h: "f_io_read (cfg b) \<noteq> None" "state_state b = Some h" by auto
    from scan show ?thesis
      by (auto simp: button_scan_enabled [OF h] Let_def split: if_splits)
  qed
  show "\<exists>b'. p' = Some b'
           \<and> (\<not> (f_io_read (cfg b) \<noteq> None
                  \<and> snd (button_debounce b r) = active_lv (cfg b)
                  \<and> state_state b \<in> {Some ON_IDLE, Some ON_UP, Some ON_UP_SUSPENSE})
                \<longrightarrow> state_click_cnt b' = state_click_cnt b)"
  proof (cases "f_io_read (cfg b) = None \<or> state_state b = None")
    case True
    then have "button_scan (Some b) r = (Some b, BTN_EVENT_NONE, [])"
      by (intro scan_disabled) simp
    with scan show ?thesis by auto
  next
    case False
    then obtain h where h: "f_io_read (cfg b) \<noteq> None" "state_state b = Some h" by auto
    define io_ev where "io_ev = (if snd (button_debounce b r) = active_lv (cfg b)
                   then BTN_IO_EVENT_DOWN else BTN_IO_EVENT_UP)"
    define b1 where "b1 = fst (button_debounce b r)"
    from scan have p': "p' = Some (fst (call_state h b1 io_ev))"
      by (auto simp: button_scan_enabled [OF h] Let_def io_ev_def b1_def split: if_splits)
    moreover have "state_click_cnt b1 = state_click_cnt b"
      by (simp add: b1_def debounce_keeps)
    moreover have "io_ev = BTN_IO_EVENT_DOWN \<Longrightarrow> snd (button_debounce b r) = active_lv (cfg b)"
      by (simp add: io_ev_def split: if_splits)
    ultimately show ?thesis
      using call_state_click_cnt [of h b1 io_ev] h by auto
  qed
next
  assume "f_io_read (cfg b) \<noteq> None \<and> snd (button_debounce b r) = active_lv (cfg b)
        \<and> state_state b \<in> {Some ON_IDLE, Some ON_UP}"
  then show "button_scan (Some b) r =
        (Some ((fst (button_debounce b r))
                 \<lparr>state_counter := 0, state_click_cnt := 1, state_state := Some ON_DOWN\<rparr>),
         BTN_EVENT_NONE, [])"
    by (auto simp: button_scan_def split_beta handler_defs debounce_keeps)
next
  assume "f_io_read (cfg b) \<noteq> None \<and> snd (button_debounce b r) = active_lv (cfg b)
        \<and> state_state b = Some ON_UP_SUSPENSE"
  then show "button_scan (Some b) r =
        (Some ((fst (button_debounce b r))
                 \<lparr>state_counter := 0, state_click_cnt := state_click_cnt b + 1,
                  state_state := Some ON_DOWN_SHORT\<rparr>),
         BTN_EVENT_NONE, [])"
    by (auto simp: button_scan_def split_beta handler_defs debounce_keeps)
qed

text \<open>
  At three instances that scans from the constructed instance reach: a Pressed tick in Up
  takes the stale click count 55 to 1, a Pressed tick in UpSuspense takes the click count
  1 to 2, and a Released tick in UpSuspense leaves it at 1; all three return None.
\<close>

theorem none_tick_frame_witness:
  "button_scan
     (Some (\<lparr>cfg = sample_cfg, f_ev_cb = Some 3, state_state = Some ON_UP, state_counter = 77,
            state_click_cnt = 55, state_jit_previous = 1, state_jit_asserted = 0\<rparr>
            :: (1, 16) button_t)) 1 =
     (Some \<lparr>cfg = sample_cfg, f_ev_cb = Some 3, state_state = Some ON_DOWN, state_counter = 0,
            state_click_cnt = 1, state_jit_previous = 1, state_jit_asserted = 1\<rparr>,
      BTN_EVENT_NONE, [])
   \<and> button_scan
       (Some (\<lparr>cfg = sample_cfg, f_ev_cb = Some 3, state_state = Some ON_UP_SUSPENSE,
              state_counter = 1, state_click_cnt = 1, state_jit_previous = 1,
              state_jit_asserted = 0\<rparr> :: (1, 16) button_t)) 1 =
     (Some \<lparr>cfg = sample_cfg, f_ev_cb = Some 3, state_state = Some ON_DOWN_SHORT,
            state_counter = 0, state_click_cnt = 2, state_jit_previous = 1,
            state_jit_asserted = 1\<rparr>,
      BTN_EVENT_NONE, [])
   \<and> button_scan
       (Some (\<lparr>cfg = sample_cfg, f_ev_cb = Some 3, state_state = Some ON_UP_SUSPENSE,
              state_counter = 0, state_click_cnt = 1, state_jit_previous = 0,
              state_jit_asserted = 0\<rparr> :: (1, 16) button_t)) 0 =
     (Some \<lparr>cfg = sample_cfg, f_ev_cb = Some 3, state_state = Some ON_UP_SUSPENSE,
            state_counter = 1, state_click_cnt = 1, state_jit_previous = 0,
            state_jit_asserted = 0\<rparr>,
      BTN_EVENT_NONE, [])"
proof -
  let ?up = "\<lparr>cfg = sample_cfg, f_ev_cb = Some 3, state_state = Some ON_UP, state_counter = 77,
            state_click_cnt = 55, state_jit_previous = 1, state_jit_asserted = 0\<rparr>
              :: (1, 16) button_t"
  let ?us = "\<lparr>cfg = sample_cfg, f_ev_cb = Some 3, state_state = Some ON_UP_SUSPENSE,
              state_counter = 1, state_click_cnt = 1, state_jit_previous = 1,
              state_jit_asserted = 0\<rparr> :: (1, 16) button_t"
  let ?rel = "\<lparr>cfg = sample_cfg, f_ev_cb = Some 3, state_state = Some ON_UP_SUSPENSE,
              state_counter = 0, state_click_cnt = 1, state_jit_previous = 0,
              state_jit_asserted = 0\<rparr> :: (1, 16) button_t"
  let ?rel' = "\<lparr>cfg = sample_cfg, f_ev_cb = Some 3, state_state = Some ON_UP_SUSPENSE,
              state_counter = 1, state_click_cnt = 1, state_jit_previous = 0,
              state_jit_asserted = 0\<rparr> :: (1, 16) button_t"
  have e: "button_scan (Some ?rel) 0 = (Some ?rel', BTN_EVENT_NONE, [])"
    by (simp add: button_scan_def sample_cfg_def button_debounce_def Let_def handler_defs
        word_le_nat_alt)
  have d1: "button_scan (Some ?up) 1 =
     (Some \<lparr>cfg = sample_cfg, f_ev_cb = Some 3, state_state = Some ON_DOWN, state_counter = 0,
            state_click_cnt = 1, state_jit_previous = 1, state_jit_asserted = 1\<rparr>,
      BTN_EVENT_NONE, [])"
    by (simp add: button_scan_def sample_cfg_def button_debounce_def Let_def handler_defs)
  have d2: "button_scan (Some ?us) 1 =
     (Some \<lparr>cfg = sample_cfg, f_ev_cb = Some 3, state_state = Some ON_DOWN_SHORT,
            state_counter = 0, state_click_cnt = 2, state_jit_previous = 1,
            state_jit_asserted = 1\<rparr>,
      BTN_EVENT_NONE, [])"
    by (simp add: button_scan_def sample_cfg_def button_debounce_def Let_def handler_defs)
  have a1: "button_scan (Some ?up) 1 =
     (Some \<lparr>cfg = sample_cfg, f_ev_cb = Some 3, state_state = Some ON_DOWN, state_counter = 0,
            state_click_cnt = 1, state_jit_previous = 1, state_jit_asserted = 1\<rparr>,
      BTN_EVENT_NONE, [])"
    using none_tick_frame [of ?up 1 None "[]"] d1
    by (simp add: sample_cfg_def button_debounce_def Let_def)
  have a2: "button_scan (Some ?us) 1 =
     (Some \<lparr>cfg = sample_cfg, f_ev_cb = Some 3, state_state = Some ON_DOWN_SHORT,
            state_counter = 0, state_click_cnt = 2, state_jit_previous = 1,
            state_jit_asserted = 1\<rparr>,
      BTN_EVENT_NONE, [])"
    using none_tick_frame [of ?us 1 None "[]"] d2
    by (simp add: sample_cfg_def button_debounce_def Let_def)
  have "state_click_cnt ?rel' = state_click_cnt ?rel"
    using none_tick_frame [of ?rel 0 "Some ?rel'" "[]"] e by simp
  with a1 a2 e show ?thesis by blast
qed

text \<open>
  C2 as stated fails. Scanning the samples 1, 1, 0, 0, 1 from the constructed instance
  (a press, its release and the first sample of a second press) leaves the machine in
  UpSuspense with click count 1; the next sample 1 is a Pressed tick that returns None
  and raises the click count to 2.
\<close>

theorem none_tick_click_cnt_counterexample:
  "button_scans (Some (button_ctor stale_btn (Some sample_cfg) (Some 3))) [1, 1, 0, 0, 1] =
     (Some \<lparr>cfg = sample_cfg, f_ev_cb = Some 3, state_state = Some ON_UP_SUSPENSE,
            state_counter = 1, state_click_cnt = 1, state_jit_previous = 1,
            state_jit_asserted = 0\<rparr>,
      [BTN_EVENT_NONE, BTN_EVENT_NONE, BTN_EVENT_NONE, BTN_EVENT_POPUP, BTN_EVENT_NONE],
      [\<lparr>ev_type = BTN_EVENT_POPUP, clicks = 1\<rparr>])
   \<and> button_scan
       (Some \<lparr>cfg = sample_cfg, f_ev_cb = Some 3, state_state = Some ON_UP_SUSPENSE,
              state_counter = 1, state_click_cnt = 1, state_jit_previous = 1,
              state_jit_asserted = 0\<rparr>) 1 =
     (Some \<lparr>cfg = sample_cfg, f_ev_cb = Some 3, state_state = Some ON_DOWN_SHORT,
            state_counter = 0, state_click_cnt = 2, state_jit_previous = 1,
            state_jit_asserted = 1\<rparr>,
      BTN_EVENT_NONE, [])"
  by (simp add: button_scan_def button_ctor_def sample_cfg_def stale_btn_def
      button_debounce_def Let_def BUTTON_LEVEL_HIGH_def handler_defs word_le_nat_alt)

section \<open>Click sequences after construction\<close>

text \<open>
  Every press the scan can deliver starts in Up: the first scan after construction is a
  Released tick, which moves Idle to Up, and no handler returns to Idle. The first
  Pressed tick enters Down with the counter at 0, so the counter of Down is one behind
  the number of Pressed ticks, and the release tick resets the counter, so the counter of
  UpSuspense is one behind the number of Released ticks. Both theorems run the scans on
  raw samples from the constructed instance and follow the state machine through Idle,
  Up, Down and the states after it.
\<close>

text \<open>
  C5, as the code has it. After construction with a read function, a callback and a
  binary active level: \<open>n\<close> raw samples at the active level, \<open>2 \<le> n \<le> long_min_cnt\<close>,
  followed by \<open>m\<close> samples at the released level, \<open>m \<ge> max 1 up_max_cnt + 2\<close>, make the
  scans return Popup once, on scan \<open>n + 2\<close> (the second released sample), then SingleClick
  once, on scan \<open>n + 2 + max 1 up_max_cnt\<close>, and None on every other scan; the callback
  receives exactly these two events, both with click count 1.
\<close>

theorem single_click_scans:
  fixes c :: "'c::len button_cfg_t" and g :: "('w::len, 'c) button_t"
  assumes rd: "f_io_read c \<noteq> None" and bin: "active_lv c \<le> 1"
    and n: "2 \<le> n" "n \<le> unat (long_min_cnt c)"
    and m: "max 1 (unat (up_max_cnt c)) + 2 \<le> m"
  shows "snd (button_scans (Some (button_ctor g (Some c) (Some cb)))
           (replicate n (active_lv c) @ replicate m (active_lv c XOR BUTTON_LEVEL_HIGH))) =
         (replicate (Suc n) BTN_EVENT_NONE @ [BTN_EVENT_POPUP]
            @ replicate (max 1 (unat (up_max_cnt c)) - 1) BTN_EVENT_NONE
            @ [BTN_EVENT_SINGLE_CLICK]
            @ replicate (m - 2 - max 1 (unat (up_max_cnt c))) BTN_EVENT_NONE,
          [\<lparr>ev_type = BTN_EVENT_POPUP, clicks = 1\<rparr>,
           \<lparr>ev_type = BTN_EVENT_SINGLE_CLICK, clicks = 1\<rparr>])"
proof -
  define b0 where "b0 = button_ctor g (Some c) (Some cb)"
  define rs where "rs = replicate n (active_lv c) @ replicate m (active_lv c XOR BUTTON_LEVEL_HIGH)"
  define k where "k = max 1 (unat (up_max_cnt c))"
  define n0 where "n0 = n - 2"
  define m0 where "m0 = m - 2"
  define k' where "k' = k - 1"
  define q where "q = m0 - k"
  from n m have nm: "n = Suc (Suc n0)" "m = Suc (Suc m0)" by (simp_all add: n0_def m0_def)
  have k': "k' < k" "Suc k' = k"
    by (simp_all add: k'_def k_def max_def)
  from m have m0: "m0 = k' + Suc q"
    using k'(2) unfolding q_def m0_def k_def [symmetric] by arith
  have f: "cfg b0 = c" "f_ev_cb b0 = Some cb" "state_state b0 = Some ON_IDLE"
    "state_jit_previous b0 = ucast (active_lv c XOR BUTTON_LEVEL_HIGH)"
    "state_jit_asserted b0 = ucast (active_lv c XOR BUTTON_LEVEL_HIGH)"
    by (simp_all add: b0_def button_ctor_def Let_def)
  text \<open>The logical inputs of the samples.\<close>
  have ios: "io_events b0 rs =
      BTN_IO_EVENT_UP # BTN_IO_EVENT_DOWN # replicate (Suc n0) BTN_IO_EVENT_DOWN
        @ BTN_IO_EVENT_UP # replicate k' BTN_IO_EVENT_UP
        @ BTN_IO_EVENT_UP # replicate q BTN_IO_EVENT_UP"
    using io_events_press [of b0 n0 m0] bin
    by (simp add: f rs_def nm m0 replicate_app_Cons_same replicate_add)
  text \<open>The instances the state machine passes through.\<close>
  define u0 where "u0 = b0\<lparr>state_state := Some ON_UP\<rparr>"
  define b1 where "b1 = u0\<lparr>state_counter := 0, state_click_cnt := 1, state_state := Some ON_DOWN\<rparr>"
  define b2 where "b2 = b1\<lparr>state_counter := of_nat (Suc n0)\<rparr>"
  define b3 where "b3 = b2\<lparr>state_counter := 0, state_state := Some ON_UP_SUSPENSE\<rparr>"
  define b4 where "b4 = b3\<lparr>state_counter := of_nat k'\<rparr>"
  define b5 where "b5 = b4\<lparr>state_counter := 0, state_state := Some ON_UP\<rparr>"
  note bs = u0_def b1_def b2_def b3_def b4_def b5_def
  have s0: "fsm_step b0 BTN_IO_EVENT_UP = (u0, BTN_EVENT_NONE)"
    by (simp add: fsm_step_def handler_defs f u0_def)
  have s1: "fsm_step u0 BTN_IO_EVENT_DOWN = (b1, BTN_EVENT_NONE)"
    by (simp add: fsm_step_def handler_defs u0_def b1_def)
  have s2: "fsm_run b1 (replicate (Suc n0) BTN_IO_EVENT_DOWN) =
              (b2, replicate (Suc n0) BTN_EVENT_NONE, [])"
    using n nm down_hold [of b1 "Suc n0"] by (simp add: bs f)
  have s3: "fsm_step b2 BTN_IO_EVENT_UP = (b3, BTN_EVENT_POPUP)"
    by (simp add: fsm_step_def handler_defs bs)
  have s4: "fsm_run b3 (replicate k' BTN_IO_EVENT_UP) = (b4, replicate k' BTN_EVENT_NONE, [])"
    using up_suspense_hold [of b3 k'] k'(1) by (simp add: bs f k_def)
  have "unat (of_nat k' :: 'c word) = k'"
    using k'(1) unfolding k_def by (rule unat_below_threshold)
  with k'(2) have "unat (of_nat k' :: 'c word) + 1 = max 1 (unat (up_max_cnt c))"
    by (simp add: k_def)
  then have "up_max_cnt c \<le> of_nat k' + 1"
    by (rule counter_reached)
  then have s5: "fsm_step b4 BTN_IO_EVENT_UP = (b5, BTN_EVENT_SINGLE_CLICK)"
    by (simp add: fsm_step_def handler_defs Let_def bs f dispatch_click_type_cases)
  have s6: "fsm_run b5 (replicate q BTN_IO_EVENT_UP) = (b5, replicate q BTN_EVENT_NONE, [])"
    by (rule up_rest) (simp add: bs)
  have cl: "state_click_cnt b3 = 1" "state_click_cnt b5 = 1"
    by (simp_all add: bs)
  have run: "snd (fsm_run b0 (io_events b0 rs)) =
      (BTN_EVENT_NONE # BTN_EVENT_NONE # replicate (Suc n0) BTN_EVENT_NONE
         @ BTN_EVENT_POPUP # replicate k' BTN_EVENT_NONE
         @ BTN_EVENT_SINGLE_CLICK # replicate q BTN_EVENT_NONE,
       [\<lparr>ev_type = BTN_EVENT_POPUP, clicks = 1\<rparr>,
        \<lparr>ev_type = BTN_EVENT_SINGLE_CLICK, clicks = 1\<rparr>])"
    unfolding ios by (simp add: fsm_run_append s0 s1 s2 s3 s4 s5 s6 cl del: replicate_Suc)
  have "snd (button_scans (Some b0) rs) = snd (fsm_run b0 (io_events b0 rs))"
    using rd by (intro scans_follow_fsm_run) (simp_all add: f)
  with run have "snd (button_scans (Some b0) rs) =
      (BTN_EVENT_NONE # BTN_EVENT_NONE # replicate (Suc n0) BTN_EVENT_NONE
         @ BTN_EVENT_POPUP # replicate k' BTN_EVENT_NONE
         @ BTN_EVENT_SINGLE_CLICK # replicate q BTN_EVENT_NONE,
       [\<lparr>ev_type = BTN_EVENT_POPUP, clicks = 1\<rparr>,
        \<lparr>ev_type = BTN_EVENT_SINGLE_CLICK, clicks = 1\<rparr>])"
    by simp
  moreover have "max 1 (unat (up_max_cnt c)) - 1 = k'" "m - 2 - max 1 (unat (up_max_cnt c)) = q"
    by (simp_all add: k'_def q_def k_def m0_def)
  ultimately show ?thesis
    by (simp add: b0_def rs_def nm(1))
qed

text \<open>
  With \<open>long_min_cnt = 3\<close> and \<open>up_max_cnt = 2\<close>: two active samples, five released ones.
\<close>

theorem single_click_scans_witness:
  "f_io_read sample_cfg \<noteq> None \<and> active_lv sample_cfg \<le> 1
   \<and> snd (button_scans (Some (button_ctor stale_btn (Some sample_cfg) (Some 3)))
        [1, 1, 0, 0, 0, 0, 0]) =
     ([BTN_EVENT_NONE, BTN_EVENT_NONE, BTN_EVENT_NONE, BTN_EVENT_POPUP, BTN_EVENT_NONE,
       BTN_EVENT_SINGLE_CLICK, BTN_EVENT_NONE],
      [\<lparr>ev_type = BTN_EVENT_POPUP, clicks = 1\<rparr>,
       \<lparr>ev_type = BTN_EVENT_SINGLE_CLICK, clicks = 1\<rparr>])"
proof -
  have rd: "f_io_read sample_cfg \<noteq> None" and bin: "active_lv sample_cfg \<le> 1"
    by (simp_all add: sample_cfg_def)
  have n: "(2::nat) \<le> 2" "2 \<le> unat (long_min_cnt sample_cfg)"
    and m: "max 1 (unat (up_max_cnt sample_cfg)) + 2 \<le> 5"
    by (simp_all add: sample_cfg_def)
  have c: "max 1 (unat (up_max_cnt sample_cfg)) = 2" "active_lv sample_cfg = 1"
    "active_lv sample_cfg XOR BUTTON_LEVEL_HIGH = 0"
    by (simp_all add: sample_cfg_def BUTTON_LEVEL_HIGH_def)
  have run: "snd (button_scans (Some (button_ctor stale_btn (Some sample_cfg) (Some 3)))
        [1, 1, 0, 0, 0, 0, 0]) =
     ([BTN_EVENT_NONE, BTN_EVENT_NONE, BTN_EVENT_NONE, BTN_EVENT_POPUP, BTN_EVENT_NONE,
       BTN_EVENT_SINGLE_CLICK, BTN_EVENT_NONE],
      [\<lparr>ev_type = BTN_EVENT_POPUP, clicks = 1\<rparr>,
       \<lparr>ev_type = BTN_EVENT_SINGLE_CLICK, clicks = 1\<rparr>])"
    by (simp add: button_scan_def button_ctor_def sample_cfg_def stale_btn_def
        button_debounce_def Let_def BUTTON_LEVEL_HIGH_def handler_defs word_le_nat_alt
        dispatch_click_type_cases)
  from single_click_scans [OF rd bin n m, of stale_btn 3] run rd bin show ?thesis
    unfolding c by (simp add: eval_nat_numeral BUTTON_LEVEL_HIGH_def del: button_scans.simps)
qed

text \<open>
  C5 as stated fails. With \<open>up_max_cnt = 2\<close> and \<open>long_min_cnt = 3\<close>, the samples 1, 1, 0,
  0, 0 are a press of two ticks and a release held for \<open>up_max_cnt\<close> ticks or more (three
  released samples, of which the state machine sees two as Released): the scans return
  Popup and no SingleClick, the machine still waits in UpSuspense with counter 1. The
  samples 1, 0, 0, 0, 0, a press of one sample, give no event at all.
\<close>

theorem single_click_short_counterexample:
  "button_scans (Some (button_ctor stale_btn (Some sample_cfg) (Some 3))) [1, 1, 0, 0, 0] =
     (Some \<lparr>cfg = sample_cfg, f_ev_cb = Some 3, state_state = Some ON_UP_SUSPENSE,
            state_counter = 1, state_click_cnt = 1, state_jit_previous = 0,
            state_jit_asserted = 0\<rparr>,
      [BTN_EVENT_NONE, BTN_EVENT_NONE, BTN_EVENT_NONE, BTN_EVENT_POPUP, BTN_EVENT_NONE],
      [\<lparr>ev_type = BTN_EVENT_POPUP, clicks = 1\<rparr>])
   \<and> button_scans (Some (button_ctor stale_btn (Some sample_cfg) (Some 3))) [1, 0, 0, 0, 0] =
     (Some \<lparr>cfg = sample_cfg, f_ev_cb = Some 3, state_state = Some ON_UP,
            state_counter = 77, state_click_cnt = 55, state_jit_previous = 0,
            state_jit_asserted = 0\<rparr>,
      [BTN_EVENT_NONE, BTN_EVENT_NONE, BTN_EVENT_NONE, BTN_EVENT_NONE, BTN_EVENT_NONE], [])"
  by (simp add: button_scan_def button_ctor_def sample_cfg_def stale_btn_def
      button_debounce_def Let_def BUTTON_LEVEL_HIGH_def handler_defs word_le_nat_alt
      dispatch_click_type_cases)




section \<open>Construction and the guard of the scan\<close>

text \<open>
  C7. When the instance pointer, the read function or the state handler is absent, a scan
  returns None, leaves the instance as it is and hands nothing to the callback, and so
  does every scan of a sequence. The instance constructed from an absent configuration
  is of this kind: over any sequence of samples every scan returns None, the callback is
  never called and the instance stays as constructed.
\<close>

theorem disabled_scan:
  "((p_btn = None \<or> (\<exists>b. p_btn = Some b \<and> (f_io_read (cfg b) = None \<or> state_state b = None)))
      \<longrightarrow> button_scan p_btn r = (p_btn, BTN_EVENT_NONE, [])
        \<and> button_scans p_btn rs = (p_btn, replicate (length rs) BTN_EVENT_NONE, []))
   \<and> button_scans (Some (button_ctor g None cb)) rs =
       (Some (button_ctor g None cb), replicate (length rs) BTN_EVENT_NONE, [])"
proof -
  have "f_io_read (cfg (button_ctor g None cb)) = None"
    by (simp add: button_ctor_def)
  then have "button_scans (Some (button_ctor g None cb)) rs =
       (Some (button_ctor g None cb), replicate (length rs) BTN_EVENT_NONE, [])"
    by (intro scans_disabled) simp
  then show ?thesis
    using scan_disabled [of p_btn r] scans_disabled [of p_btn rs] by blast
qed

theorem disabled_scan_witness:
  "button_scan (None :: (1, 16) button_t option) 1 = (None, BTN_EVENT_NONE, [])
   \<and> button_scan (Some (stale_btn\<lparr>state_state := None\<rparr>)) 1 =
        (Some (stale_btn\<lparr>state_state := None\<rparr>), BTN_EVENT_NONE, [])
   \<and> button_scans (Some (button_ctor stale_btn None (Some 3))) [1, 1, 0, 0, 0, 0] =
        (Some (button_ctor stale_btn None (Some 3)),
         [BTN_EVENT_NONE, BTN_EVENT_NONE, BTN_EVENT_NONE, BTN_EVENT_NONE, BTN_EVENT_NONE,
          BTN_EVENT_NONE], [])"
  using disabled_scan [of "None :: (1, 16) button_t option" 1 "[]" stale_btn "Some 3" ]
    disabled_scan [of "Some (stale_btn\<lparr>state_state := None\<rparr>)" 1 "[1, 1, 0, 0, 0, 0]"
      stale_btn "Some 3"]
  by (simp del: button_scans.simps)

text \<open>
  C9. For a present configuration the constructor sets both debounce fields to the active
  level XOR \<^verbatim>\<open>BUTTON_LEVEL_HIGH\<close>, that is to 0 for an active-high and to 1 for an
  active-low line, and sets the state to Idle. While every raw sample is that released
  level, every scan returns None and nothing reaches the callback; the instance only
  moves from Idle to Up (when it has a read function).
\<close>

theorem ctor_released_and_quiet:
  "state_jit_previous (button_ctor g (Some c) cb) = ucast (active_lv c XOR BUTTON_LEVEL_HIGH)
   \<and> state_jit_asserted (button_ctor g (Some c) cb) = ucast (active_lv c XOR BUTTON_LEVEL_HIGH)
   \<and> (active_lv c = 1 \<longrightarrow>
        state_jit_previous (button_ctor g (Some c) cb) = 0
        \<and> state_jit_asserted (button_ctor g (Some c) cb) = 0)
   \<and> (active_lv c = 0 \<longrightarrow>
        state_jit_previous (button_ctor g (Some c) cb) = 1
        \<and> state_jit_asserted (button_ctor g (Some c) cb) = 1)
   \<and> state_state (button_ctor g (Some c) cb) = Some ON_IDLE
   \<and> ((\<forall>r \<in> set rs. r = active_lv c XOR BUTTON_LEVEL_HIGH) \<longrightarrow>
        button_scans (Some (button_ctor g (Some c) cb)) rs =
          (Some (if rs = [] \<or> f_io_read c = None then button_ctor g (Some c) cb
                 else (button_ctor g (Some c) cb)\<lparr>state_state := Some ON_UP\<rparr>),
           replicate (length rs) BTN_EVENT_NONE, []))"
proof -
  let ?b = "button_ctor g (Some c) cb"
  have f: "cfg ?b = c"
    "state_jit_previous ?b = ucast (active_lv c XOR BUTTON_LEVEL_HIGH)"
    "state_jit_asserted ?b = ucast (active_lv c XOR BUTTON_LEVEL_HIGH)"
    "state_state ?b = Some ON_IDLE"
    by (simp_all add: button_ctor_def Let_def)
  have "button_scans (Some ?b) rs =
          (Some (if rs = [] \<or> f_io_read c = None then ?b else ?b\<lparr>state_state := Some ON_UP\<rparr>),
           replicate (length rs) BTN_EVENT_NONE, [])"
    if "\<forall>r \<in> set rs. r = active_lv c XOR BUTTON_LEVEL_HIGH"
    using quiet_scans [of ?b rs] that by (simp add: f)
  moreover have "active_lv c = 1 \<Longrightarrow> state_jit_previous ?b = 0 \<and> state_jit_asserted ?b = 0"
    by (simp add: f BUTTON_LEVEL_HIGH_def)
  moreover have "active_lv c = 0 \<Longrightarrow> state_jit_previous ?b = 1 \<and> state_jit_asserted ?b = 1"
    by (simp add: f BUTTON_LEVEL_HIGH_def)
  ultimately show ?thesis using f by blast
qed

theorem ctor_released_and_quiet_witness:
  "active_lv sample_cfg = 1
   \<and> state_jit_previous (button_ctor stale_btn (Some sample_cfg) (Some 3)) = 0
   \<and> state_jit_asserted (button_ctor stale_btn (Some sample_cfg) (Some 3)) = 0
   \<and> state_state (button_ctor stale_btn (Some sample_cfg) (Some 3)) = Some ON_IDLE
   \<and> button_scans (Some (button_ctor stale_btn (Some sample_cfg) (Some 3))) [0, 0, 0] =
       (Some ((button_ctor stale_btn (Some sample_cfg) (Some 3))\<lparr>state_state := Some ON_UP\<rparr>),
        [BTN_EVENT_NONE, BTN_EVENT_NONE, BTN_EVENT_NONE], [])"
  using ctor_released_and_quiet [of stale_btn sample_cfg "Some 3" "[0, 0, 0]"]
  by (simp add: sample_cfg_def BUTTON_LEVEL_HIGH_def del: button_scans.simps)

text \<open>
  C10. An instance constructed from a configuration with a read function and with a null
  callback is enabled: over any sequence of raw samples the scans return, tick by tick,
  the events that the debounce filter followed by the state machine produce, they leave
  the instance in the state those two computed, and nothing is handed to the callback.
\<close>

theorem null_callback_enabled:
  assumes "f_io_read c \<noteq> None"
  shows "button_scans (Some (button_ctor g (Some c) None)) rs =
           (Some (fst (filter_fsm_run (button_ctor g (Some c) None) rs)),
            snd (filter_fsm_run (button_ctor g (Some c) None) rs), [])"
  using assms by (intro scans_null_callback) (simp_all add: button_ctor_def Let_def)

text \<open>A press and its release without a callback: Popup is returned, nothing delivered.\<close>

theorem null_callback_enabled_witness:
  "f_io_read sample_cfg \<noteq> None
   \<and> button_scans (Some (button_ctor stale_btn (Some sample_cfg) None)) [1, 1, 0, 0] =
       (Some \<lparr>cfg = sample_cfg, f_ev_cb = None, state_state = Some ON_UP_SUSPENSE,
              state_counter = 0, state_click_cnt = 1, state_jit_previous = 0,
              state_jit_asserted = 0\<rparr>,
        [BTN_EVENT_NONE, BTN_EVENT_NONE, BTN_EVENT_NONE, BTN_EVENT_POPUP], [])"
proof -
  have r: "f_io_read sample_cfg \<noteq> None" by (simp add: sample_cfg_def)
  have "filter_fsm_run (button_ctor stale_btn (Some sample_cfg) None) [1, 1, 0, 0] =
       (\<lparr>cfg = sample_cfg, f_ev_cb = None, state_state = Some ON_UP_SUSPENSE,
              state_counter = 0, state_click_cnt = 1, state_jit_previous = 0,
              state_jit_asserted = 0\<rparr>,
        [BTN_EVENT_NONE, BTN_EVENT_NONE, BTN_EVENT_NONE, BTN_EVENT_POPUP])"
    by (simp add: button_ctor_def sample_cfg_def stale_btn_def fsm_step_def
      button_debounce_def Let_def BUTTON_LEVEL_HIGH_def handler_defs word_le_nat_alt)
  with null_callback_enabled [OF r, of stale_btn "[1, 1, 0, 0]"] r show ?thesis
    by (simp del: button_scans.simps)
qed

end
